theory Spec2Isabelle
  imports Complex_Main
begin

section \<open>The window extractor of \<open>Network.__init__\<close> (src/network.py)\<close>

text \<open>
  The constructor of \<open>Network\<close> cuts the piano roll of a performance into windows of
  \<open>time_step\<close> slices and stores them in two arrays \<open>X\<close> and \<open>y\<close>. The embedding follows
  the constructor line by line.

  Modelling decisions:
  \<^item> A two-dimensional array is the list of its rows, a three-dimensional array the list
    of its windows. Cells are integers; the arrays of \<open>np.zeros\<close> hold doubles, which
    store the presence indicators 0 and 1 of a piano roll exactly (\<open>binary_roll\<close> below).
  \<^item> \<open>beat_roll\<close> is a Python list of rows, each a list of cells. A slice \<open>roll[a:b]\<close>
    with \<open>0 \<le> a \<le> b\<close> is clipped to the length of the roll.
  \<^item> \<open>total_ticks\<close>, \<open>tpb\<close>, \<open>res\<close>, \<open>note_range\<close> and \<open>beats_in_window\<close> are Python
    integers. The true division \<open>/\<close> of Python 3 yields a double: its value is taken
    over the rationals, so the rounding of the double is not modelled, and the theorems
    that depend on the value of \<open>N\<close> are stated for operands below \<open>2^50\<close>
    (\<open>exact_quotients\<close> below), where the rounding does not change the floor.
  \<^item> Every exception the constructor raises is a value of \<open>error\<close>.
\<close>

datatype error = ZeroDivisionError | OverflowError | ValueError | TypeError

type_synonym matrix = "int list list"
type_synonym tensor = "matrix list"

text \<open>The performance source \<open>midi_in\<close>: the attributes the constructor reads.\<close>

record midi =
  beat_roll :: matrix
  res :: int
  total_ticks :: int
  tpb :: int
  note_range :: int

text \<open>
  Line 21, \<open>np.array(midi_in.beat_roll)\<close>: a list whose rows differ in length is not an
  array and raises \<open>ValueError\<close>.
\<close>

definition np_array :: "matrix \<Rightarrow> error + matrix" where
  "np_array roll =
     (if list_all (\<lambda>row. length row = length (hd roll)) roll then Inr roll
      else Inl ValueError)"

text \<open>\<open>np.zeros(shape=(n, t, r))\<close>: a negative dimension raises \<open>ValueError\<close>.\<close>

definition np_zeros :: "int \<Rightarrow> int \<Rightarrow> int \<Rightarrow> error + tensor" where
  "np_zeros n t r =
     (if n < 0 \<or> t < 0 \<or> r < 0 then Inl ValueError
      else Inr (replicate (nat n) (replicate (nat t) (replicate (nat r) 0))))"

text \<open>The slice \<open>roll[a:b]\<close> for \<open>0 \<le> a \<le> b\<close>.\<close>

definition roll_slice :: "matrix \<Rightarrow> nat \<Rightarrow> nat \<Rightarrow> matrix" where
  "roll_slice roll a b = take (b - a) (drop a roll)"

text \<open>
  The assignment \<open>A[i] = w\<close> into an array whose windows have shape \<open>(ts, R)\<close>: numpy
  broadcasts \<open>w\<close> to that shape. An axis of \<open>w\<close> must have the length of the target axis
  or length one (then it is repeated); any other shape raises \<open>ValueError\<close>. The empty
  list has the one axis of length zero, which fits only a target of width zero.
  \<open>broadcast_window\<close> returns the window that is stored.
\<close>

definition broadcast_row :: "nat \<Rightarrow> int list \<Rightarrow> int list" where
  "broadcast_row R r = (if length r = R then r else replicate R (hd r))"

definition broadcast_window :: "nat \<Rightarrow> nat \<Rightarrow> matrix \<Rightarrow> error + matrix" where
  "broadcast_window ts R w =
     (if w = [] then (if R = 0 then Inr (replicate ts []) else Inl ValueError)
      else if (length w = ts \<or> length w = 1) \<and> list_all (\<lambda>r. length r = R \<or> length r = 1) w
      then Inr (map (broadcast_row R) (if length w = ts then w else replicate ts (hd w)))
      else Inl ValueError)"

text \<open>
  One pass of the body of \<open>for i in range(0, self.N)\<close> (lines 35 to 39), on the pair of
  arrays \<open>(X, y)\<close>.
\<close>

fun window_step :: "matrix \<Rightarrow> nat \<Rightarrow> nat \<Rightarrow> nat \<Rightarrow> tensor \<times> tensor \<Rightarrow> error + tensor \<times> tensor" where
  "window_step roll ts R i (X, y) =
     (let beat_start = i * ts in
      case broadcast_window ts R (roll_slice roll beat_start (beat_start + ts)) of
        Inl e \<Rightarrow> Inl e
      | Inr w \<Rightarrow>
          if i > 0 then
            (case broadcast_window ts R
                    (roll_slice roll (beat_start + ts) (beat_start + ts * 2)) of
               Inl e \<Rightarrow> Inl e
             | Inr v \<Rightarrow> Inr (X[i := w], y[i - 1 := v]))
          else Inr (X[i := w], y))"

text \<open>The loop \<open>for i in range(0, self.N)\<close>, started at \<open>i\<close>.\<close>

function window_loop ::
  "matrix \<Rightarrow> nat \<Rightarrow> nat \<Rightarrow> nat \<Rightarrow> nat \<Rightarrow> tensor \<times> tensor \<Rightarrow> error + tensor \<times> tensor" where
  "window_loop roll ts R n i s =
     (if i < n then
        (case window_step roll ts R i s of
           Inl e \<Rightarrow> Inl e
         | Inr s' \<Rightarrow> window_loop roll ts R n (Suc i) s')
      else Inr s)"
  by pat_completeness auto
termination
  by (relation "measure (\<lambda>(roll, ts, R, n, i, s). n - i)") auto

declare window_loop.simps [simp del]

text \<open>
  Lines 27 to 29: \<open>total_beats = total_ticks / tpb\<close> and
  \<open>N = floor(total_beats / beats_in_window) - 1\<close>. A division by zero raises
  \<open>ZeroDivisionError\<close>. A quotient of two integers, or an integer divisor, that rounds
  beyond the largest double raises \<open>OverflowError\<close>: these are the values of magnitude
  at least \<open>2^1024 - 2^970\<close>.
\<close>

definition double_overflows :: "rat \<Rightarrow> bool" where
  "double_overflows q \<longleftrightarrow> 2 ^ 1024 - 2 ^ 970 \<le> \<bar>q\<bar>"

definition total_beats :: "midi \<Rightarrow> rat" where
  "total_beats m = of_int (total_ticks m) / of_int (tpb m)"

definition window_count :: "midi \<Rightarrow> int \<Rightarrow> error + int" where
  "window_count m biw =
     (if tpb m = 0 then Inl ZeroDivisionError
      else if double_overflows (total_beats m) then Inl OverflowError
      else if double_overflows (of_int biw) then Inl OverflowError
      else if biw = 0 then Inl ZeroDivisionError
      else Inr (\<lfloor>total_beats m / of_int biw\<rfloor> - 1))"

text \<open>
  Lines 26 to 39 of the constructor: the counts, the two allocations and the loop. The
  result is \<open>N\<close>, \<open>time_step\<close>, \<open>X\<close> and \<open>y\<close>.
\<close>

definition extract_windows :: "midi \<Rightarrow> int \<Rightarrow> error + (int \<times> int \<times> tensor \<times> tensor)" where
  "extract_windows m biw =
     (let ts = biw * res m in
      case window_count m biw of
        Inl e \<Rightarrow> Inl e
      | Inr n \<Rightarrow>
         (case np_zeros n ts (note_range m) of
            Inl e \<Rightarrow> Inl e
          | Inr X0 \<Rightarrow>
             (case np_zeros n ts (note_range m) of
                Inl e \<Rightarrow> Inl e
              | Inr y0 \<Rightarrow>
                 (case window_loop (beat_roll m) (nat ts) (nat (note_range m)) (nat n) 0 (X0, y0) of
                    Inl e \<Rightarrow> Inl e
                  | Inr (X1, y1) \<Rightarrow> Inr (n, ts, X1, y1)))))"


section \<open>The layers and the constructed object\<close>

text \<open>
  Lines 41 to 67 declare the layers with the library's constructors. The model records
  the arguments the source passes; what the library computes inside a layer is not part
  of src/network.py. \<open>'w\<close> stands for the library's model object (the graph with its
  current weights), which \<open>Model(inputs=..., outputs=...)\<close> returns. The constructor of a
  layer refuses a number of units that is not positive with \<open>ValueError\<close>: the recurrent
  layers get the constant 128, the emission layer gets \<open>note_range\<close>.
\<close>

datatype activation = Softmax | Sigmoid

record lstm_layer =
  units :: int
  return_sequences :: bool
  return_state :: bool

record dense_layer =
  dense_units :: int
  dense_activation :: activation

record 'w network =
  encoder_in_data :: matrix
  midi_in :: midi
  time_step :: int
  beats_in_window :: int
  N :: int
  X :: tensor
  y :: tensor
  hidden :: int
  enc_lstm_1 :: lstm_layer
  enc_dropout :: rat
  enc_lstm_2 :: lstm_layer
  dec_lstm_1 :: lstm_layer
  dec_lstm_2 :: lstm_layer
  dec_dense :: dense_layer
  training_model :: 'w

text \<open>Line 64, \<open>Dense(units, activation=...)\<close>.\<close>

definition Dense :: "int \<Rightarrow> activation \<Rightarrow> error + dense_layer" where
  "Dense u a =
     (if u \<le> 0 then Inl ValueError else Inr \<lparr>dense_units = u, dense_activation = a\<rparr>)"

text \<open>
  \<open>Network.__init__(self, midi_in, beats_in_window)\<close>; \<open>tm\<close> is the object the library
  returns for \<open>self.training_model\<close> on line 67.
\<close>

definition Network_init :: "'w \<Rightarrow> midi \<Rightarrow> int \<Rightarrow> error + 'w network" where
  "Network_init tm m biw =
     (case np_array (beat_roll m) of
        Inl e \<Rightarrow> Inl e
      | Inr d \<Rightarrow>
         (case extract_windows m biw of
            Inl e \<Rightarrow> Inl e
          | Inr (n, ts, X1, y1) \<Rightarrow>
              (let h = 128 in
               case Dense (note_range m) Softmax of
                 Inl e \<Rightarrow> Inl e
               | Inr dd \<Rightarrow>
                   Inr \<lparr> encoder_in_data = d, midi_in = m, time_step = ts,
                         beats_in_window = biw, N = n, X = X1, y = y1, hidden = h,
                         enc_lstm_1 =
                           \<lparr>units = h, return_sequences = True, return_state = False\<rparr>,
                         enc_dropout = 3 / 10,
                         enc_lstm_2 =
                           \<lparr>units = h, return_sequences = False, return_state = True\<rparr>,
                         dec_lstm_1 =
                           \<lparr>units = h, return_sequences = True, return_state = False\<rparr>,
                         dec_lstm_2 =
                           \<lparr>units = h, return_sequences = True, return_state = True\<rparr>,
                         dec_dense = dd, training_model = tm \<rparr>)))"

text \<open>
  A call with keyword arguments to a function whose only optional parameter is \<open>name\<close>
  with default \<open>dflt\<close>: Python raises \<open>TypeError\<close> for any other keyword.
\<close>

definition bind_keyword :: "string \<Rightarrow> int \<Rightarrow> (string \<times> int) list \<Rightarrow> error + int" where
  "bind_keyword name dflt kwargs =
     (if list_all (\<lambda>(k, v). k = name) kwargs
      then Inr (case map_of kwargs name of None \<Rightarrow> dflt | Some v \<Rightarrow> v)
      else Inl TypeError)"

text \<open>The call \<open>Network(midi_in, **kwargs)\<close> of \<open>def __init__(self, midi_in, beats_in_window=8)\<close>.\<close>

definition Network_call :: "'w \<Rightarrow> midi \<Rightarrow> (string \<times> int) list \<Rightarrow> error + 'w network" where
  "Network_call tm m kwargs =
     (case bind_keyword ''beats_in_window'' 8 kwargs of
        Inl e \<Rightarrow> Inl e
      | Inr biw \<Rightarrow> Network_init tm m biw)"

text \<open>
  The emission of \<open>dec_dense\<close> at one timestep: the activation applied to the vector of
  pre-activations, one per pitch. The activations are taken over the reals.
\<close>

definition softmax :: "real list \<Rightarrow> real list" where
  "softmax zs = map (\<lambda>z. exp z / sum_list (map exp zs)) zs"

definition sigmoid :: "real list \<Rightarrow> real list" where
  "sigmoid zs = map (\<lambda>z. 1 / (1 + exp (- z))) zs"

fun activate :: "activation \<Rightarrow> real list \<Rightarrow> real list" where
  "activate Softmax zs = softmax zs"
| "activate Sigmoid zs = sigmoid zs"

definition dec_emission :: "'w network \<Rightarrow> real list \<Rightarrow> real list" where
  "dec_emission net zs = activate (dense_activation (dec_dense net)) zs"

section \<open>Notions of the specification\<close>

text \<open>
  The window \<open>PianoRoll[k\<cdot>time_step : (k+1)\<cdot>time_step]\<close>, a matrix whose rows all have
  width \<open>r\<close>, and an array of shape \<open>(n, t, r)\<close>.
\<close>

definition roll_window :: "matrix \<Rightarrow> nat \<Rightarrow> nat \<Rightarrow> matrix" where
  "roll_window roll ts k = roll_slice roll (k * ts) ((k + 1) * ts)"

definition rectangular :: "nat \<Rightarrow> matrix \<Rightarrow> bool" where
  "rectangular r roll = list_all (\<lambda>row. length row = r) roll"


text \<open>
  The invariant of the data model: \<open>T = total_ticks / (ticks_per_beat / slices_per_beat)\<close>
  for a roll of \<open>T\<close> slices.
\<close>

definition roll_invariant :: "midi \<Rightarrow> bool" where
  "roll_invariant m \<longleftrightarrow>
     (of_int (int (length (beat_roll m))) :: rat)
       = of_int (total_ticks m) / (of_int (tpb m) / of_int (res m))"

text \<open>
  The counts for which the two double divisions of lines 27 and 29 have the floor of the
  exact quotient. For integers \<open>a\<close>, \<open>b\<close>, \<open>c\<close> of magnitude below \<open>2^50\<close> no division
  overflows, and the double \<open>q\<close> computed for \<open>(a / b) / c\<close> differs from the exact
  \<open>r = a / (b c)\<close> by less than \<open>\<bar>r\<bar> / 2^51\<close>, which is below \<open>1 / (2 \<bar>b c\<bar>)\<close>. When
  \<open>r\<close> is an integer both divisions are exact; otherwise \<open>r\<close> is at least \<open>1 / \<bar>b c\<bar>\<close>
  away from every integer, so \<open>q\<close> lies between the same two integers as \<open>r\<close>.
\<close>

definition exact_quotients :: "midi \<Rightarrow> int \<Rightarrow> bool" where
  "exact_quotients m biw \<longleftrightarrow>
     \<bar>total_ticks m\<bar> < 2 ^ 50 \<and> \<bar>tpb m\<bar> < 2 ^ 50 \<and> \<bar>biw\<bar> < 2 ^ 50"

text \<open>A roll of presence indicators: every cell is 0 or 1.\<close>

definition binary_roll :: "matrix \<Rightarrow> bool" where
  "binary_roll roll = list_all (list_all (\<lambda>c. c = 0 \<or> c = 1)) roll"

text \<open>
  What the constructor needs of its input: the roll holds the
  \<open>floor(total_beats / beats_in_window)\<close> windows that the tick counts announce
  (\<open>roll_covers\<close>, a consequence of the invariant), its rows have width \<open>note_range\<close>
  and hold presence indicators, the counts are in the range of \<open>exact_quotients\<close>, and
  the window length, the resolution and the note range are positive.
\<close>

definition roll_covers :: "midi \<Rightarrow> int \<Rightarrow> bool" where
  "roll_covers m biw \<longleftrightarrow>
     \<lfloor>total_beats m / of_int biw\<rfloor> * (biw * res m) \<le> int (length (beat_roll m))"

definition well_formed :: "midi \<Rightarrow> int \<Rightarrow> bool" where
  "well_formed m biw \<longleftrightarrow>
     tpb m \<noteq> 0 \<and> 0 < biw \<and> 0 < res m \<and> 0 < note_range m \<and> exact_quotients m biw
     \<and> rectangular (nat (note_range m)) (beat_roll m) \<and> binary_roll (beat_roll m)
     \<and> roll_covers m biw"

section \<open>Concrete performances\<close>

text \<open>
  A performance of three beats at one slice per beat over two pitches, with three
  different slices, and the object the constructor builds from it with windows of one
  beat. In the concrete objects a number stands for the library's model object.
\<close>

definition perf3 :: midi where
  "perf3 = \<lparr>beat_roll = [[1, 0], [0, 1], [1, 1]], res = 1, total_ticks = 3, tpb = 1,
            note_range = 2\<rparr>"

definition net3 :: "nat network" where
  "net3 = \<lparr> encoder_in_data = [[1, 0], [0, 1], [1, 1]], midi_in = perf3, time_step = 1,
            beats_in_window = 1, N = 2, X = [[[1, 0]], [[0, 1]]], y = [[[1, 1]], [[0, 0]]],
            hidden = 128,
            enc_lstm_1 = \<lparr>units = 128, return_sequences = True, return_state = False\<rparr>,
            enc_dropout = 3 / 10,
            enc_lstm_2 = \<lparr>units = 128, return_sequences = False, return_state = True\<rparr>,
            dec_lstm_1 = \<lparr>units = 128, return_sequences = True, return_state = False\<rparr>,
            dec_lstm_2 = \<lparr>units = 128, return_sequences = True, return_state = True\<rparr>,
            dec_dense = \<lparr>dense_units = 2, dense_activation = Softmax\<rparr>,
            training_model = 0 \<rparr>"

text \<open>
  A performance of seven ticks at two ticks per beat and two slices per beat, so of
  three beats and a half in seven slices, and the object the constructor builds from it
  with windows of one beat.
\<close>

definition perf7 :: midi where
  "perf7 = \<lparr>beat_roll = [[1, 0], [0, 1], [1, 1], [0, 0], [1, 0], [1, 1], [0, 1]], res = 2,
            total_ticks = 7, tpb = 2, note_range = 2\<rparr>"

definition net7 :: "nat network" where
  "net7 = net3 \<lparr> encoder_in_data := beat_roll perf7, midi_in := perf7, time_step := 2,
            X := [[[1, 0], [0, 1]], [[1, 1], [0, 0]]],
            y := [[[1, 0], [1, 1]], [[0, 0], [0, 0]]] \<rparr>"


section \<open>The window loop\<close>

lemma roll_slice_length: "b \<le> length roll \<Longrightarrow> length (roll_slice roll a b) = b - a"
  by (simp add: roll_slice_def)

lemma roll_slice_rect: "rectangular R roll \<Longrightarrow> rectangular R (roll_slice roll a b)"
  unfolding rectangular_def roll_slice_def list_all_iff
  by (meson in_set_dropD in_set_takeD)

lemma broadcast_window_full:
  "w \<noteq> [] \<Longrightarrow> length w = ts \<Longrightarrow> rectangular R w \<Longrightarrow> broadcast_window ts R w = Inr w"
  unfolding broadcast_window_def rectangular_def list_all_iff
  by (auto simp: broadcast_row_def intro: map_idI)


lemma step_window:
  assumes "rectangular R roll" "(k + 1) * ts \<le> length roll" "0 < ts"
  shows "broadcast_window ts R (roll_slice roll (k * ts) (k * ts + ts)) = Inr (roll_window roll ts k)"
proof -
  have len: "length (roll_slice roll (k * ts) (k * ts + ts)) = ts"
    using assms(2) by (simp add: roll_slice_length)
  with assms(3) have "roll_slice roll (k * ts) (k * ts + ts) \<noteq> []" by auto
  from broadcast_window_full[OF this len roll_slice_rect[OF assms(1)]] show ?thesis
    by (simp add: roll_window_def add.commute)
qed




lemma window_loop_last_target:
  "window_loop roll ts R n i s = Inr s' \<Longrightarrow> n \<le> k + 1 \<Longrightarrow> snd s' ! k = snd s ! k"
proof (induction roll ts R n i s rule: window_loop.induct)
  case (1 roll ts R n i s)
  show ?case
  proof (cases "i < n")
    case True
    obtain Xs ys where s: "s = (Xs, ys)" by (cases s)
    from True "1.prems"(1) obtain s1 where st: "window_step roll ts R i s = Inr s1"
      and rest: "window_loop roll ts R n (Suc i) s1 = Inr s'"
      by (subst (asm) window_loop.simps) (auto split: sum.splits)
    from st True "1.prems"(2) have "snd s1 ! k = snd s ! k"
      unfolding s by (auto simp: Let_def split: sum.splits if_splits)
    with "1.IH"[OF True st rest "1.prems"(2)] show ?thesis by simp
  next
    case False
    with "1.prems" show ?thesis by (subst (asm) window_loop.simps) auto
  qed
qed

lemma window_loop_result:
  assumes "rectangular R roll" "(n + 1) * ts \<le> length roll" "0 < ts"
    and "length Xs = n" "length ys = n"
  shows "\<exists>Xs' ys'. window_loop roll ts R n i (Xs, ys) = Inr (Xs', ys')
           \<and> (\<forall>k<n. Xs' ! k = (if i \<le> k then roll_window roll ts k else Xs ! k))
           \<and> (\<forall>k<n. ys' ! k = (if i \<le> k + 1 \<and> k + 1 < n then roll_window roll ts (k + 2) else ys ! k))"
  using assms
proof (induction roll ts R n i "(Xs, ys)" arbitrary: Xs ys rule: window_loop.induct)
  case (1 roll ts R n i)
  note rect = "1.prems"(1) and cover = "1.prems"(2) and tspos = "1.prems"(3)
  note lenX = "1.prems"(4) and leny = "1.prems"(5)
  show ?case
  proof (cases "i < n")
    case True
    let ?w = "roll_window roll ts i" and ?v = "roll_window roll ts (i + 1)"
    let ?Xs1 = "Xs[i := ?w]" and ?ys1 = "if i > 0 then ys[i - 1 := ?v] else ys"
    have w: "broadcast_window ts R (roll_slice roll (i * ts) (i * ts + ts)) = Inr ?w"
    proof (rule step_window[OF rect _ tspos])
      have "(i + 1) * ts \<le> (n + 1) * ts" using True by (intro mult_le_mono1) simp
      then show "(i + 1) * ts \<le> length roll" using cover by (rule le_trans)
    qed
    have v: "broadcast_window ts R (roll_slice roll (i * ts + ts) (i * ts + ts * 2)) = Inr ?v"
    proof -
      have "(i + 1 + 1) * ts \<le> (n + 1) * ts" using True by (intro mult_le_mono1) simp
      then have "(i + 1 + 1) * ts \<le> length roll" using cover by (rule le_trans)
      from step_window[OF rect this tspos]
      have "broadcast_window ts R (roll_slice roll ((i + 1) * ts) ((i + 1) * ts + ts)) = Inr ?v" .
      moreover have "(i + 1) * ts = i * ts + ts" "(i + 1) * ts + ts = i * ts + ts * 2"
        by simp_all
      ultimately show ?thesis by metis
    qed
    have st: "window_step roll ts R i (Xs, ys) = Inr (?Xs1, ?ys1)"
      using w v by (simp add: Let_def)
    have len: "length ?Xs1 = n" "length ?ys1 = n" using lenX leny by simp_all
    from "1.hyps"[OF True st rect cover tspos len] obtain Xs' ys' where
      res: "window_loop roll ts R n (Suc i) (?Xs1, ?ys1) = Inr (Xs', ys')"
      and rX: "\<forall>k<n. Xs' ! k = (if Suc i \<le> k then roll_window roll ts k else ?Xs1 ! k)"
      and ry: "\<forall>k<n. ys' ! k = (if Suc i \<le> k + 1 \<and> k + 1 < n then roll_window roll ts (k + 2) else ?ys1 ! k)"
      by blast
    have loop: "window_loop roll ts R n i (Xs, ys) = Inr (Xs', ys')"
      using True st res by (subst window_loop.simps) simp
    have X: "\<forall>k<n. Xs' ! k = (if i \<le> k then roll_window roll ts k else Xs ! k)"
    proof (intro allI impI)
      fix k assume "k < n"
      with rX lenX show "Xs' ! k = (if i \<le> k then roll_window roll ts k else Xs ! k)"
        by (cases "k = i") auto
    qed
    have Y: "\<forall>k<n. ys' ! k = (if i \<le> k + 1 \<and> k + 1 < n then roll_window roll ts (k + 2) else ys ! k)"
    proof (intro allI impI)
      fix k assume k: "k < n"
      show "ys' ! k = (if i \<le> k + 1 \<and> k + 1 < n then roll_window roll ts (k + 2) else ys ! k)"
      proof (cases "k + 1 = i")
        case True
        with ry k \<open>i < n\<close> leny show ?thesis by auto
      next
        case False
        with ry k leny show ?thesis by auto
      qed
    qed
    from loop X Y show ?thesis by blast
  next
    case False
    then have "window_loop roll ts R n i (Xs, ys) = Inr (Xs, ys)"
      by (subst window_loop.simps) simp
    with False show ?thesis by auto
  qed
qed

section \<open>The constructor\<close>

lemma invariant_covers:
  assumes "roll_invariant m" "tpb m \<noteq> 0" "0 < res m" "0 < biw"
  shows "roll_covers m biw"
proof -
  let ?T = "of_int (int (length (beat_roll m))) :: rat"
  let ?q = "total_beats m / of_int biw"
  have pos: "(0::rat) < of_int (biw * res m)" using assms(3,4) by simp
  have tb: "total_beats m = ?T / of_int (res m)"
    using assms(1,2,3) by (simp add: roll_invariant_def total_beats_def field_simps)
  have "?q * of_int (biw * res m) = ?T"
    using assms(3,4) by (simp add: tb field_simps)
  moreover have "of_int \<lfloor>?q\<rfloor> * (of_int (biw * res m) :: rat) \<le> ?q * of_int (biw * res m)"
    using pos by (intro mult_right_mono) simp_all
  ultimately have "(of_int (\<lfloor>?q\<rfloor> * (biw * res m)) :: rat) \<le> ?T" by simp
  then show ?thesis unfolding roll_covers_def by (simp only: of_int_le_iff)
qed

lemma np_zeros_Inr:
  "np_zeros n t r = Inr A \<longleftrightarrow>
     0 \<le> n \<and> 0 \<le> t \<and> 0 \<le> r \<and> A = replicate (nat n) (replicate (nat t) (replicate (nat r) 0))"
  by (auto simp: np_zeros_def)


lemma extract_windows_Inr:
  assumes "extract_windows m biw = Inr (n, ts, X1, y1)"
  shows "window_count m biw = Inr n \<and> ts = biw * res m \<and> 0 \<le> n \<and> 0 \<le> ts \<and> 0 \<le> note_range m
         \<and> window_loop (beat_roll m) (nat ts) (nat (note_range m)) (nat n) 0
              (replicate (nat n) (replicate (nat ts) (replicate (nat (note_range m)) 0)),
               replicate (nat n) (replicate (nat ts) (replicate (nat (note_range m)) 0)))
            = Inr (X1, y1)"
  using assms unfolding extract_windows_def Let_def
  by (auto simp: np_zeros_Inr split: sum.splits)

lemma extract_windows_loop:
  assumes "window_count m biw = Inr n" "0 \<le> n" "0 \<le> biw * res m" "0 \<le> note_range m"
    and "window_loop (beat_roll m) (nat (biw * res m)) (nat (note_range m)) (nat n) 0
              (replicate (nat n) (replicate (nat (biw * res m)) (replicate (nat (note_range m)) 0)),
               replicate (nat n) (replicate (nat (biw * res m)) (replicate (nat (note_range m)) 0)))
            = Inr (X1, y1)"
  shows "extract_windows m biw = Inr (n, biw * res m, X1, y1)"
  using assms unfolding extract_windows_def Let_def
  by (simp add: np_zeros_def)

lemma no_overflow:
  assumes "b \<noteq> 0" and "\<bar>a\<bar> < 2 ^ 50"
  shows "\<not> double_overflows (of_int a / of_int b)"
proof -
  have "(1::rat) \<le> \<bar>of_int b\<bar>"
    using assms(1) by (simp flip: of_int_abs)
  then have "\<bar>(of_int a / of_int b :: rat)\<bar> \<le> \<bar>of_int a\<bar>"
    using assms(1) by (simp add: abs_divide divide_le_eq mult_le_cancel_left1)
  also have "(\<bar>of_int a\<bar> :: rat) < 2 ^ 50"
  proof -
    have "(of_int \<bar>a\<bar> :: rat) < of_int (2 ^ 50)"
      using assms(2) by (simp only: of_int_less_iff)
    then show ?thesis by simp
  qed
  also have "(2::rat) ^ 50 \<le> 2 ^ 1024 - 2 ^ 970" by simp
  finally show ?thesis by (simp add: double_overflows_def)
qed

lemma window_count_exact:
  assumes "tpb m \<noteq> 0" and "biw \<noteq> 0" and "exact_quotients m biw"
  shows "window_count m biw
           = Inr (\<lfloor>(of_int (total_ticks m) / of_int (tpb m) :: rat) / of_int biw\<rfloor> - 1)"
proof -
  from assms(1,3) have a: "\<not> double_overflows (total_beats m)"
    unfolding total_beats_def exact_quotients_def by (intro no_overflow) simp_all
  have "\<not> double_overflows (of_int biw / of_int 1)"
    using assms(3) unfolding exact_quotients_def by (intro no_overflow) simp_all
  then have b: "\<not> double_overflows (of_int biw)" by simp
  from a b assms(1,2) show ?thesis
    by (simp add: window_count_def total_beats_def)
qed

lemma count_is_div:
  "\<lfloor>(of_int a / of_int b :: rat) / of_int c\<rfloor> = a div (b * c)"
proof -
  have "(of_int a / of_int b :: rat) / of_int c = of_int a / of_int (b * c)" by simp
  then show ?thesis by (simp only: floor_divide_of_int_eq)
qed

lemma np_array_rect: "rectangular r roll \<Longrightarrow> np_array roll = Inr roll"
  unfolding np_array_def rectangular_def list_all_iff
  by (cases roll) auto

lemma Network_init_Inr:
  assumes "Network_init tm m biw = Inr net"
  shows "extract_windows m biw = Inr (N net, time_step net, X net, y net)"
    and "midi_in net = m" and "hidden net = 128" and "training_model net = tm"
    and "beats_in_window net = biw" and "dense_activation (dec_dense net) = Softmax"
  using assms unfolding Network_init_def Let_def Dense_def
  by (auto split: sum.splits prod.splits if_splits)

lemma Network_init_of_extract:
  assumes "extract_windows m biw = Inr (n, ts, X1, y1)"
    and "rectangular r (beat_roll m)" and "0 < note_range m"
  shows "\<exists>net. Network_init tm m biw = Inr net \<and> N net = n \<and> time_step net = ts
           \<and> X net = X1 \<and> y net = y1"
  using assms(1,3) np_array_rect[OF assms(2)]
  unfolding Network_init_def Let_def Dense_def by simp

lemma Network_init_succeeds:
  assumes wf: "well_formed m biw" and cnt: "window_count m biw = Inr n" and n1: "0 \<le> n"
  shows "\<exists>net. Network_init tm m biw = Inr net \<and> N net = n \<and> time_step net = biw * res m
      \<and> (\<forall>k<nat n. X net ! k = roll_window (beat_roll m) (nat (biw * res m)) k)
      \<and> (\<forall>k<nat n. y net ! k =
            (if k + 1 < nat n then roll_window (beat_roll m) (nat (biw * res m)) (k + 2)
             else replicate (nat (biw * res m)) (replicate (nat (note_range m)) 0)))"
proof -
  let ?ts = "biw * res m" and ?R = "nat (note_range m)"
  let ?Z = "replicate (nat n) (replicate (nat ?ts) (replicate ?R (0::int)))"
  from wf have rect: "rectangular ?R (beat_roll m)" and pos: "0 < biw" "0 < res m"
    and R1: "0 < note_range m" and cov: "roll_covers m biw" and tpb0: "tpb m \<noteq> 0"
    and ex: "exact_quotients m biw"
    by (simp_all add: well_formed_def)
  have R0: "0 \<le> note_range m" using R1 by simp
  have ts1: "0 < ?ts" using pos by simp
  then have ts0: "0 \<le> ?ts" by simp
  have tsnat: "0 < nat ?ts" using ts1 by simp
  from cnt window_count_exact[OF tpb0 _ ex, of ] pos
  have n: "n = \<lfloor>total_beats m / of_int biw\<rfloor> - 1"
    by (simp add: total_beats_def)
  have "(n + 1) * ?ts \<le> int (length (beat_roll m))"
    using cov unfolding roll_covers_def n by simp
  moreover have "int ((nat n + 1) * nat ?ts) = (n + 1) * ?ts"
    using n1 ts0 by (simp add: distrib_right)
  ultimately have cover: "(nat n + 1) * nat ?ts \<le> length (beat_roll m)" by linarith
  from window_loop_result[OF rect cover tsnat, of ?Z ?Z 0] obtain Xs' ys' where
    loop: "window_loop (beat_roll m) (nat ?ts) ?R (nat n) 0 (?Z, ?Z) = Inr (Xs', ys')"
    and rX: "\<forall>k<nat n. Xs' ! k = roll_window (beat_roll m) (nat ?ts) k"
    and ry: "\<forall>k<nat n. ys' ! k =
               (if k + 1 < nat n then roll_window (beat_roll m) (nat ?ts) (k + 2) else ?Z ! k)"
    by auto
  from extract_windows_loop[OF cnt n1 ts0 R0 loop]
  have "extract_windows m biw = Inr (n, ?ts, Xs', ys')" .
  from Network_init_of_extract[OF this rect R1, of tm] obtain net where
    net: "Network_init tm m biw = Inr net" "N net = n" "time_step net = ?ts" "X net = Xs'" "y net = ys'"
    by blast
  show ?thesis
    using net rX ry by (intro exI[of _ net]) auto
qed


lemma perf3_init: "Network_init 0 perf3 1 = Inr net3"
  by (simp add: Network_init_def np_array_def Dense_def extract_windows_def window_count_def
      double_overflows_def total_beats_def perf3_def
      net3_def np_zeros_def window_loop.simps broadcast_window_def broadcast_row_def
      roll_slice_def Let_def numeral_2_eq_2)

lemma floor_seven_halves: "\<lfloor>(7 / 2 :: rat)\<rfloor> = 3"
  by (simp add: floor_eq_iff)

lemma perf7_well_formed: "well_formed perf7 1"
  by (simp add: well_formed_def roll_covers_def rectangular_def binary_roll_def
      exact_quotients_def total_beats_def perf7_def floor_seven_halves)

lemma perf7_init: "Network_init 0 perf7 1 = Inr net7"
  by (simp add: Network_init_def np_array_def Dense_def extract_windows_def window_count_def
      double_overflows_def total_beats_def perf7_def net7_def floor_seven_halves
      net3_def np_zeros_def window_loop.simps broadcast_window_def broadcast_row_def
      roll_slice_def Let_def numeral_2_eq_2)

section \<open>Claims on the window tensors\<close>



text \<open>
  C4. After a construction with \<open>N \<ge> 1\<close> the last target window \<open>y[N-1]\<close> is all zero:
  the loop never assigns it, so it keeps the fill value of \<open>np.zeros\<close>. This holds for
  every construction that returns, whatever the roll.
\<close>

theorem last_target_zero:
  assumes "Network_init tm m biw = Inr net" and "1 \<le> N net"
  shows "y net ! nat (N net - 1)
           = replicate (nat (time_step net)) (replicate (nat (note_range m)) 0)"
proof -
  let ?Z = "replicate (nat (N net)) (replicate (nat (time_step net)) (replicate (nat (note_range m)) (0::int)))"
  from Network_init_Inr(1)[OF assms(1)] extract_windows_Inr
  have loop: "window_loop (beat_roll m) (nat (time_step net)) (nat (note_range m)) (nat (N net)) 0
          (?Z, ?Z) = Inr (X net, y net)"
    by blast
  have "nat (N net) \<le> nat (N net - 1) + 1" by simp
  from window_loop_last_target[OF loop this]
  have "y net ! nat (N net - 1) = ?Z ! nat (N net - 1)" by simp
  also have "\<dots> = replicate (nat (time_step net)) (replicate (nat (note_range m)) 0)"
    using assms(2) by simp
  finally show ?thesis .
qed

theorem last_target_zero_witness:
  "Network_init 0 perf3 1 = Inr net3 \<and> 1 \<le> N net3 \<and>
   y net3 ! nat (N net3 - 1)
     = replicate (nat (time_step net3)) (replicate (nat (note_range perf3)) 0)"
  using last_target_zero[OF perf3_init] perf3_init
  by (simp add: net3_def)

text \<open>
  C1. The claim: for every \<open>i\<close> in \<open>[0, N-1)\<close> the target \<open>y[i]\<close> is the slice
  \<open>PianoRoll[(i+1)\<cdot>time_step : (i+2)\<cdot>time_step]\<close> that follows the slice of \<open>X[i]\<close>, and
  equals \<open>X[i+1]\<close>. The loop stores in \<open>y[i-1]\<close> the slice that follows the slice of
  \<open>X[i]\<close>, so \<open>y[i]\<close> is the window two steps after \<open>X[i]\<close> (lemma
  \<open>Network_init_succeeds\<close>). On the performance of three beats, with \<open>time_step = 1\<close>:
  \<open>y[0]\<close> is \<open>roll[2:3]\<close>, while \<open>X[1]\<close> is \<open>roll[1:2]\<close>, and the two differ.
\<close>

theorem target_alignment_failing:
  "Network_init 0 perf3 1 = Inr net3
   \<and> y net3 ! 0 = roll_slice (beat_roll perf3) 2 3
   \<and> X net3 ! 1 = roll_slice (beat_roll perf3) 1 2
   \<and> y net3 ! 0 \<noteq> X net3 ! 1"
  using perf3_init by (simp add: net3_def perf3_def roll_slice_def)

section \<open>Claims on the window count\<close>

text \<open>
  C2. For a performance with \<open>total_beats \<ge> 2 \<times> beats_in_window\<close>, where
  \<open>total_beats = total_ticks / ticks_per_beat\<close>, the constructor computes
  \<open>N = floor(total_beats / beats_in_window) - 1\<close>, and \<open>N \<ge> 1\<close>. The tick rate is not
  zero and the window length is positive, as the two quotients require, and the counts
  are below \<open>2^50\<close>. The count of line 29 is this number, which is also
  \<open>total_ticks div (tpb \<times> beats_in_window) - 1\<close>; every object the constructor returns
  carries it as \<open>N\<close>, and on a well-formed performance the constructor returns one.
\<close>

theorem window_count_formula:
  assumes "tpb m \<noteq> 0" and "0 < biw" and "exact_quotients m biw"
    and "2 * of_int biw \<le> (of_int (total_ticks m) / of_int (tpb m) :: rat)"
  shows "window_count m biw
           = Inr (\<lfloor>(of_int (total_ticks m) / of_int (tpb m) :: rat) / of_int biw\<rfloor> - 1)
       \<and> \<lfloor>(of_int (total_ticks m) / of_int (tpb m) :: rat) / of_int biw\<rfloor> - 1
           = total_ticks m div (tpb m * biw) - 1
       \<and> 1 \<le> \<lfloor>(of_int (total_ticks m) / of_int (tpb m) :: rat) / of_int biw\<rfloor> - 1
       \<and> (Network_init tm m biw = Inr net \<longrightarrow>
            N net = \<lfloor>(of_int (total_ticks m) / of_int (tpb m) :: rat) / of_int biw\<rfloor> - 1)
       \<and> (well_formed m biw \<longrightarrow>
            (\<exists>net'. Network_init tm m biw = Inr net'
               \<and> N net' = \<lfloor>(of_int (total_ticks m) / of_int (tpb m) :: rat) / of_int biw\<rfloor> - 1))"
proof -
  let ?q = "(of_int (total_ticks m) / of_int (tpb m) :: rat) / of_int biw"
  from assms(2) have b0: "biw \<noteq> 0" by simp
  have cnt: "window_count m biw = Inr (\<lfloor>?q\<rfloor> - 1)"
    by (rule window_count_exact[OF assms(1) b0 assms(3)])
  have dv: "\<lfloor>?q\<rfloor> - 1 = total_ticks m div (tpb m * biw) - 1"
    by (simp only: count_is_div)
  have cpos: "(0::rat) < of_int biw" using assms(2) by simp
  have "(2::rat) \<le> ?q"
    unfolding pos_le_divide_eq[OF cpos] by (rule assms(4))
  then have "2 \<le> \<lfloor>?q\<rfloor>" by (simp add: le_floor_iff)
  then have ge: "1 \<le> \<lfloor>?q\<rfloor> - 1" by simp
  have carried: "N net = \<lfloor>?q\<rfloor> - 1" if "Network_init tm m biw = Inr net"
    using extract_windows_Inr[OF Network_init_Inr(1)[OF that]] cnt by simp
  have returns: "\<exists>net'. Network_init tm m biw = Inr net' \<and> N net' = \<lfloor>?q\<rfloor> - 1"
    if "well_formed m biw"
  proof -
    from ge have "0 \<le> \<lfloor>?q\<rfloor> - 1" by simp
    from Network_init_succeeds[OF that cnt this, of tm] show ?thesis by blast
  qed
  from cnt dv ge carried returns show ?thesis by blast
qed

theorem window_count_formula_witness:
  "tpb perf7 \<noteq> 0 \<and> (0::int) < 1 \<and> exact_quotients perf7 1
   \<and> 2 * of_int 1 \<le> (of_int (total_ticks perf7) / of_int (tpb perf7) :: rat)
   \<and> well_formed perf7 1
   \<and> window_count perf7 1 = Inr 2 \<and> total_ticks perf7 div (tpb perf7 * 1) - 1 = 2
   \<and> Network_init 0 perf7 1 = Inr net7 \<and> N net7 = 2"
proof -
  have h: "tpb perf7 \<noteq> 0" "(0::int) < 1" "exact_quotients perf7 1"
    "2 * of_int 1 \<le> (of_int (total_ticks perf7) / of_int (tpb perf7) :: rat)"
    by (simp_all add: perf7_def exact_quotients_def)
  have f: "\<lfloor>(of_int (total_ticks perf7) / of_int (tpb perf7) :: rat)\<rfloor> = 3"
    by (simp add: perf7_def floor_seven_halves)
  note th = window_count_formula[OF h, of "0::nat" net7]
  from th have c: "window_count perf7 1 = Inr 2" by (simp add: f)
  from th have d: "total_ticks perf7 div (tpb perf7 * 1) - 1 = 2" by (simp add: f)
  from th perf7_init have e: "N net7 = 2" by (simp add: f)
  from h perf7_well_formed c d perf7_init e show ?thesis by (intro conjI)
qed




section \<open>Claims on the layers\<close>

text \<open>
  C9, as the code has it. The width of the recurrent state is the constant 128: every
  object the constructor returns has \<open>hidden = 128\<close> and 128 units in the two
  recurrent layers of the encoder and in the two of the decoder, and the call that built
  it carried no keyword other than \<open>beats_in_window\<close>.
\<close>

theorem hidden_fixed:
  assumes "Network_call tm m kwargs = Inr net"
  shows "hidden net = 128 \<and> units (enc_lstm_1 net) = 128 \<and> units (enc_lstm_2 net) = 128
       \<and> units (dec_lstm_1 net) = 128 \<and> units (dec_lstm_2 net) = 128
       \<and> list_all (\<lambda>(k, v). k = ''beats_in_window'') kwargs"
  using assms unfolding Network_call_def bind_keyword_def Network_init_def Let_def Dense_def
  by (auto split: sum.splits prod.splits if_splits)

theorem hidden_fixed_witness:
  "Network_call 0 perf3 [(''beats_in_window'', 1)] = Inr net3 \<and> hidden net3 = 128
   \<and> units (enc_lstm_1 net3) = 128 \<and> units (enc_lstm_2 net3) = 128
   \<and> units (dec_lstm_1 net3) = 128 \<and> units (dec_lstm_2 net3) = 128"
proof -
  have c: "Network_call 0 perf3 [(''beats_in_window'', 1)] = Inr net3"
    using perf3_init by (simp add: Network_call_def bind_keyword_def)
  from hidden_fixed[OF c] c show ?thesis by simp
qed

text \<open>
  C9 as stated makes \<open>hidden\<close> a parameter of the construction. A call that passes
  \<open>hidden=64\<close> raises \<open>TypeError\<close>; without it the width is 128.
\<close>

theorem hidden_configurable_counterexample:
  "Network_call (0::nat) perf3 [(''beats_in_window'', 1), (''hidden'', 64)] = Inl TypeError
   \<and> Network_call 0 perf3 [(''beats_in_window'', 1)] = Inr net3 \<and> hidden net3 = 128"
  using perf3_init by (simp add: Network_call_def bind_keyword_def net3_def)

lemma logistic_three: "4 / 5 \<le> 1 / (1 + exp (- (3::real)))"
proof -
  have "1 + (3::real) \<le> exp 3" by (rule exp_ge_add_one_self)
  then have "exp (- (3::real)) \<le> 1 / 4"
    by (simp add: exp_minus inverse_eq_divide field_simps)
  moreover have "0 < 1 + exp (- (3::real))" by (simp add: add_pos_pos)
  ultimately show ?thesis by (simp add: pos_le_divide_eq)
qed

text \<open>
  C5. The claim: the emission layer applies a logistic function to each pitch on its
  own, so that several pitches of one timestep can have a high probability together. The
  layer \<open>dec_dense\<close> is declared with \<open>activation='softmax'\<close>: on two pitches with the
  same pre-activation 3 it emits one half for each, where the logistic function gives
  at least four fifths for each.
\<close>

theorem emission_softmax_failing:
  "Network_init 0 perf3 1 = Inr net3 \<and> dec_emission net3 [3, 3] = [1 / 2, 1 / 2]
   \<and> 4 / 5 \<le> sigmoid [3, 3] ! 0 \<and> 4 / 5 \<le> sigmoid [3, 3] ! 1"
  using perf3_init logistic_three
  by (simp add: net3_def dec_emission_def softmax_def sigmoid_def)

text \<open>
  In general the emissions of one timestep add up to one, so no two of them exceed
  one half.
\<close>

lemma softmax_sum: "zs \<noteq> [] \<Longrightarrow> sum_list (softmax zs) = 1"
proof -
  assume "zs \<noteq> []"
  then have pos: "0 < sum_list (map exp zs)"
    by (cases zs) (auto intro!: add_pos_nonneg sum_list_nonneg)
  have "sum_list (map (\<lambda>z. exp z / c) zs) = sum_list (map exp zs) / c" for c :: real
    by (induction zs) (simp_all add: add_divide_distrib)
  then have "sum_list (softmax zs) = sum_list (map exp zs) / sum_list (map exp zs)"
    unfolding softmax_def by simp
  with pos show ?thesis by simp
qed

lemma emission_sums_to_one:
  assumes "Network_init tm m biw = Inr net" and "zs \<noteq> []"
  shows "sum_list (dec_emission net zs) = 1"
proof -
  from assms(1) have "dense_activation (dec_dense net) = Softmax"
    by (rule Network_init_Inr(6))
  with softmax_sum[OF assms(2)] show ?thesis by (simp add: dec_emission_def)
qed

end
